theory Spec2Isabelle
  imports Main "HOL-Library.Word" "HOL-Library.Multiset"
begin

section \<open>JavaScript strings and values\<close>

text \<open>
  A JavaScript string is a sequence of UTF-16 code units. The todo titles of the
  repository are Korean text, so the 8-bit characters of \<open>string\<close> would not do.
  \<open>ascii\<close> embeds an ASCII literal.
\<close>

type_synonym jstring = "16 word list"

definition ascii :: "string \<Rightarrow> jstring" where
  "ascii s = map (\<lambda>c. of_nat (of_char c)) s"

text \<open>
  \<open>String.prototype.trim\<close> strips the ECMAScript WhiteSpace and
  LineTerminator code points from both ends: TAB, LF, VT, FF, CR, SP, NBSP, U+1680,
  U+2000 to U+200A, U+2028, U+2029, U+202F, U+205F, U+3000 and the byte order mark
  U+FEFF.
\<close>

definition is_space :: "16 word \<Rightarrow> bool" where
  "is_space c =
     (c \<in> {0x09, 0x0A, 0x0B, 0x0C, 0x0D, 0x20, 0xA0, 0x1680, 0x2028, 0x2029,
            0x202F, 0x205F, 0x3000, 0xFEFF}
      \<or> (0x2000 \<le> c \<and> c \<le> 0x200A))"

definition trim :: "jstring \<Rightarrow> jstring" where
  "trim s = rev (dropWhile is_space (rev (dropWhile is_space s)))"

text \<open>
  The values a handler sees: what \<open>express.json()\<close> parses out of a
  request body (null, booleans, numbers, strings, arrays, objects) and the
  \<open>Date\<close> objects the handler itself creates. A number keeps an integer
  payload: the handlers only test a number for being zero. A property that is absent
  (\<open>undefined\<close>) is \<open>None\<close> in the request body below.
\<close>

datatype jsval =
    JNull
  | JBool bool
  | JNum int
  | JStr jstring
  | JDate nat
  | JArr "jsval list"
  | JObj "(jstring \<times> jsval) list"

text \<open>\<open>!v\<close> is \<open>\<not> truthy v\<close>: null, false, 0 and the empty string are falsy.\<close>

fun truthy :: "jsval \<Rightarrow> bool" where
  "truthy JNull = False"
| "truthy (JBool b) = b"
| "truthy (JNum n) = (n \<noteq> 0)"
| "truthy (JStr s) = (s \<noteq> [])"
| "truthy (JDate t) = True"
| "truthy (JArr xs) = True"
| "truthy (JObj kvs) = True"

datatype exn = TypeError | StoreError | CacheError

text \<open>
  \<open>v.trim()\<close>: only a string has the method. On null the property read raises, on
  every other value \<open>v.trim\<close> is not a function; both are a TypeError.
\<close>

fun trim_method :: "jsval \<Rightarrow> exn + jstring" where
  "trim_method (JStr s) = Inr (trim s)"
| "trim_method v = Inl TypeError"

section \<open>The relational store\<close>

text \<open>
  A row of the table \<open>todos\<close> of \<open>schema.sql\<close>. The columns
  \<open>title\<close>, \<open>description\<close> and \<open>completed\<close> hold
  the value that was bound to the statement (the conversions the column types apply
  inside the database engine are not modelled); the two timestamps are readings of
  the database clock.
\<close>

record todo =
  todo_id :: nat
  title :: jsval
  description :: jsval
  completed :: jsval
  created_at :: nat
  updated_at :: nat

text \<open>
  The \<open>Redis\<close> key \<open>todos\<close>: the cached snapshot of the list
  with the time at which it expires, or nothing.
\<close>

type_synonym cache_key = "(todo list \<times> nat) option"

text \<open>
  The state the handlers share: the table in storage order, the AUTO\_INCREMENT
  counter, and the global \<open>redisClient\<close>, which is \<open>None\<close>
  when it is undefined and otherwise gives access to the key.
\<close>

record state =
  todos :: "todo list"
  next_id :: nat
  redisClient :: "cache_key option"

text \<open>
  What the environment decides during one request: whether \<open>db.execute\<close> rejects,
  whether each of the cache calls rejects, and the readings of the three clocks
  (\<open>CURRENT_TIMESTAMP\<close> of the database, the clock of the cache that runs the
  expiry, \<open>new Date()\<close> of the server process). A statement the store rejects (a
  lost connection, a constraint of a column) changes nothing.
\<close>

record env =
  db_fails :: bool
  get_fails :: bool
  setEx_fails :: bool
  del_fails :: bool
  db_time :: nat
  redis_time :: nat
  server_time :: nat

text \<open>
  \<open>SELECT ... FROM todos ORDER BY created_at DESC\<close>. The database leaves the order
  of rows with equal \<open>created_at\<close> open; the model keeps them in storage order.
\<close>

definition select_todos :: "todo list \<Rightarrow> todo list" where
  "select_todos tbl = sort_key (\<lambda>r. - int (created_at r)) tbl"

text \<open>
  \<open>INSERT INTO todos (title, description) VALUES (?, ?)\<close>: the other columns take
  their defaults. The result is \<open>insertId\<close> and the new state.
\<close>

definition insert_todo :: "nat \<Rightarrow> jstring \<Rightarrow> jstring \<Rightarrow> state \<Rightarrow> nat \<times> state" where
  "insert_todo now t d s =
     (next_id s,
      s\<lparr>todos := todos s @
           [\<lparr>todo_id = next_id s, title = JStr t, description = JStr d,
             completed = JBool False, created_at = now, updated_at = now\<rparr>],
        next_id := Suc (next_id s)\<rparr>)"

text \<open>
  \<open>UPDATE todos SET title = ?, description = ?, completed = ?, updated_at =
  CURRENT_TIMESTAMP WHERE id = ?\<close>. The result is \<open>affectedRows\<close>,
  the number of rows the WHERE clause matched, and the new table.
\<close>

definition update_todo ::
  "nat \<Rightarrow> jsval \<Rightarrow> jsval \<Rightarrow> jsval \<Rightarrow> nat \<Rightarrow> todo list \<Rightarrow> nat \<times> todo list" where
  "update_todo now t d c i tbl =
     (length (filter (\<lambda>r. todo_id r = i) tbl),
      map (\<lambda>r. if todo_id r = i
                then r\<lparr>title := t, description := d, completed := c, updated_at := now\<rparr>
                else r) tbl)"

text \<open>\<open>DELETE FROM todos WHERE id = ?\<close>, with its \<open>affectedRows\<close>.\<close>

definition delete_todo :: "nat \<Rightarrow> todo list \<Rightarrow> nat \<times> todo list" where
  "delete_todo i tbl =
     (length (filter (\<lambda>r. todo_id r = i) tbl), filter (\<lambda>r. todo_id r \<noteq> i) tbl)"

section \<open>The cache\<close>

text \<open>
  \<open>redisClient?.get('todos')\<close>: undefined when there is no client, an
  exception when the call rejects, otherwise the snapshot unless it is absent or has
  expired.
\<close>

definition cache_get :: "env \<Rightarrow> cache_key option \<Rightarrow> exn + todo list option" where
  "cache_get e rc =
     (case rc of
        None \<Rightarrow> Inr None
      | Some k \<Rightarrow>
          if get_fails e then Inl CacheError
          else Inr (case k of
                      None \<Rightarrow> None
                    | Some (rows, expires) \<Rightarrow>
                        if redis_time e < expires then Some rows else None))"

text \<open>\<open>redisClient?.setEx('todos', ttl, JSON.stringify(rows))\<close>.\<close>

definition cache_setEx ::
  "env \<Rightarrow> nat \<Rightarrow> todo list \<Rightarrow> cache_key option \<Rightarrow> exn + cache_key option" where
  "cache_setEx e ttl rows rc =
     (case rc of
        None \<Rightarrow> Inr None
      | Some k \<Rightarrow>
          if setEx_fails e then Inl CacheError
          else Inr (Some (Some (rows, redis_time e + ttl))))"

text \<open>\<open>redisClient?.del('todos')\<close>.\<close>

definition cache_del :: "env \<Rightarrow> cache_key option \<Rightarrow> exn + cache_key option" where
  "cache_del e rc =
     (case rc of
        None \<Rightarrow> Inr None
      | Some k \<Rightarrow> if del_fails e then Inl CacheError else Inr (Some None))"

section \<open>The request handlers\<close>

datatype payload = Rows "todo list" | Object "(string \<times> jsval) list"

record response =
  status :: nat
  body :: payload

definition internal_error :: response where
  "internal_error =
     \<lparr>status = 500, body = Object [(''error'', JStr (ascii ''Internal server error''))]\<rparr>"

definition title_required :: response where
  "title_required =
     \<lparr>status = 400, body = Object [(''error'', JStr (ascii ''Title is required''))]\<rparr>"

definition todo_not_found :: response where
  "todo_not_found =
     \<lparr>status = 404, body = Object [(''error'', JStr (ascii ''Todo not found''))]\<rparr>"

definition message :: "string \<Rightarrow> response" where
  "message m = \<lparr>status = 200, body = Object [(''message'', JStr (ascii m))]\<rparr>"

text \<open>
  \<open>app.get('/todos')\<close>. One \<open>try\<close> block holds the cache
  read, the query and the cache write, and its \<open>catch\<close> answers 500
  whichever of them raised.
\<close>

definition get_todos :: "env \<Rightarrow> state \<Rightarrow> response \<times> state" where
  "get_todos e s =
     (case cache_get e (redisClient s) of
        Inl x \<Rightarrow> (internal_error, s)
      | Inr (Some cached) \<Rightarrow> (\<lparr>status = 200, body = Rows cached\<rparr>, s)
      | Inr None \<Rightarrow>
          if db_fails e then (internal_error, s)
          else
            let rows = select_todos (todos s)
            in (case cache_setEx e 300 rows (redisClient s) of
                  Inl x \<Rightarrow> (internal_error, s)
                | Inr rc \<Rightarrow> (\<lparr>status = 200, body = Rows rows\<rparr>, s\<lparr>redisClient := rc\<rparr>)))"

text \<open>
  \<open>app.post('/todos')\<close>. \<open>req.body\<close> is the object
  \<open>express.json()\<close> parsed, a map from property names to values (the
  empty map when the request has none). The default \<open>''\<close> of
  \<open>description\<close> applies when the property is undefined. The two
  \<open>trim()\<close> calls of the argument array run before
  \<open>db.execute\<close> is called.
\<close>

definition post_todos :: "env \<Rightarrow> (string \<rightharpoonup> jsval) \<Rightarrow> state \<Rightarrow> response \<times> state" where
  "post_todos e b s =
     (let description_v = (case b ''description'' of None \<Rightarrow> JStr [] | Some v \<Rightarrow> v)
      in case b ''title'' of
           None \<Rightarrow> (title_required, s)
         | Some title_v \<Rightarrow>
             if \<not> truthy title_v then (title_required, s)
             else
               (case trim_method title_v of
                  Inl x \<Rightarrow> (internal_error, s)
                | Inr t \<Rightarrow>
                    if length t = 0 then (title_required, s)
                    else
                      (case trim_method description_v of
                         Inl x \<Rightarrow> (internal_error, s)
                       | Inr d \<Rightarrow>
                           if db_fails e then (internal_error, s)
                           else
                             let (insertId, s1) = insert_todo (db_time e) t d s
                             in (case cache_del e (redisClient s1) of
                                   Inl x \<Rightarrow> (internal_error, s1)
                                 | Inr rc \<Rightarrow>
                                     (\<lparr>status = 201,
                                       body = Object
                                         [(''id'', JNum (int insertId)),
                                          (''title'', JStr t),
                                          (''description'', JStr d),
                                          (''completed'', JBool False),
                                          (''created_at'', JDate (server_time e))]\<rparr>,
                                      s1\<lparr>redisClient := rc\<rparr>)))))"

text \<open>
  \<open>app.put('/todos/:id')\<close>. The identifier is the number the store
  compares the \<open>id\<close> column with. \<open>db.execute\<close> of mysql2
  raises a TypeError when a bind parameter is undefined, before anything is sent.
  When no row is affected the handler answers 404 and leaves the cache alone.
\<close>

definition put_todos :: "env \<Rightarrow> nat \<Rightarrow> (string \<rightharpoonup> jsval) \<Rightarrow> state \<Rightarrow> response \<times> state" where
  "put_todos e i b s =
     (case (b ''title'', b ''description'', b ''completed'') of
        (Some t, Some d, Some c) \<Rightarrow>
          if db_fails e then (internal_error, s)
          else
            let (affectedRows, tbl) = update_todo (db_time e) t d c i (todos s)
            in if affectedRows = 0 then (todo_not_found, s\<lparr>todos := tbl\<rparr>)
               else
                 (case cache_del e (redisClient s) of
                    Inl x \<Rightarrow> (internal_error, s\<lparr>todos := tbl\<rparr>)
                  | Inr rc \<Rightarrow>
                      (message ''Todo updated successfully'',
                       s\<lparr>todos := tbl, redisClient := rc\<rparr>))
      | _ \<Rightarrow> (internal_error, s))"

text \<open>\<open>app.delete('/todos/:id')\<close>.\<close>

definition delete_todos :: "env \<Rightarrow> nat \<Rightarrow> state \<Rightarrow> response \<times> state" where
  "delete_todos e i s =
     (if db_fails e then (internal_error, s)
      else
        let (affectedRows, tbl) = delete_todo i (todos s)
        in if affectedRows = 0 then (todo_not_found, s\<lparr>todos := tbl\<rparr>)
           else
             (case cache_del e (redisClient s) of
                Inl x \<Rightarrow> (internal_error, s\<lparr>todos := tbl\<rparr>)
              | Inr rc \<Rightarrow>
                  (message ''Todo deleted successfully'',
                   s\<lparr>todos := tbl, redisClient := rc\<rparr>)))"

text \<open>
  The routes of the application that work on todos. \<open>handle\<close> serves one request
  from its first statement to its response with no step of another request in
  between. The handlers are asynchronous and give way at every \<open>await\<close>; requests
  that are in flight together are the subject of the next section.
\<close>

datatype request =
    GET_todos
  | POST_todos "string \<rightharpoonup> jsval"
  | PUT_todos nat "string \<rightharpoonup> jsval"
  | DELETE_todos nat

fun handle :: "env \<Rightarrow> request \<Rightarrow> state \<Rightarrow> response \<times> state" where
  "handle e GET_todos s = get_todos e s"
| "handle e (POST_todos b) s = post_todos e b s"
| "handle e (PUT_todos i b) s = put_todos e i b s"
| "handle e (DELETE_todos i) s = delete_todos e i s"

section \<open>Requests in flight\<close>

text \<open>
  Each handler is an \<open>async\<close> function: it runs until its next
  \<open>await\<close>, and while it waits for the store or the cache the server
  runs other handlers. A \<open>task\<close> is a handler suspended at an
  \<open>await\<close>, holding the local values it still needs, or a finished one
  with its response. The calls of one cache client take effect in the order in which
  they are issued, and a statement takes effect on the store between its call and
  the resumption of the handler; so a step of a task is the awaited call taking
  effect, followed by the code of the handler up to its next \<open>await\<close>,
  and steps of different tasks can follow each other in any order.
\<close>

text \<open>
  The calls a handler awaits.
\<close>

datatype io =
    Cache_get | Store_select | Cache_setEx
  | Store_insert | Store_update | Store_delete | Cache_del

datatype task =
    Get_cache
  | Get_query
  | Get_store "todo list"
  | Post_insert jstring jstring
  | Post_del nat jstring jstring
  | Put_update nat jsval jsval jsval
  | Put_del
  | Delete_exec nat
  | Delete_del
  | Done response

text \<open>
  The code of a handler before its first \<open>await\<close>: for a create the validation
  of the title and the two \<open>trim()\<close> calls of the argument array, for an update
  the check of mysql2 that no bind parameter is undefined, which rejects before
  anything is sent.
\<close>

fun start :: "request \<Rightarrow> task" where
  "start GET_todos = Get_cache"
| "start (POST_todos b) =
     (let description_v = (case b ''description'' of None \<Rightarrow> JStr [] | Some v \<Rightarrow> v)
      in case b ''title'' of
           None \<Rightarrow> Done title_required
         | Some title_v \<Rightarrow>
             if \<not> truthy title_v then Done title_required
             else
               (case trim_method title_v of
                  Inl x \<Rightarrow> Done internal_error
                | Inr t \<Rightarrow>
                    if length t = 0 then Done title_required
                    else
                      (case trim_method description_v of
                         Inl x \<Rightarrow> Done internal_error
                       | Inr d \<Rightarrow> Post_insert t d)))"
| "start (PUT_todos i b) =
     (case (b ''title'', b ''description'', b ''completed'') of
        (Some t, Some d, Some c) \<Rightarrow> Put_update i t d c
      | _ \<Rightarrow> Done internal_error)"
| "start (DELETE_todos i) = Delete_exec i"

text \<open>
  The call a task is suspended at.
\<close>

fun awaits :: "task \<Rightarrow> io option" where
  "awaits Get_cache = Some Cache_get"
| "awaits Get_query = Some Store_select"
| "awaits (Get_store rows) = Some Cache_setEx"
| "awaits (Post_insert t d) = Some Store_insert"
| "awaits (Post_del insertId t d) = Some Cache_del"
| "awaits (Put_update i t d c) = Some Store_update"
| "awaits Put_del = Some Cache_del"
| "awaits (Delete_exec i) = Some Store_delete"
| "awaits Delete_del = Some Cache_del"
| "awaits (Done r) = None"

fun step :: "env \<Rightarrow> task \<Rightarrow> state \<Rightarrow> task \<times> state" where
  "step e Get_cache s =
     (case cache_get e (redisClient s) of
        Inl x \<Rightarrow> (Done internal_error, s)
      | Inr (Some cached) \<Rightarrow> (Done \<lparr>status = 200, body = Rows cached\<rparr>, s)
      | Inr None \<Rightarrow> (Get_query, s))"
| "step e Get_query s =
     (if db_fails e then (Done internal_error, s)
      else (Get_store (select_todos (todos s)), s))"
| "step e (Get_store rows) s =
     (case cache_setEx e 300 rows (redisClient s) of
        Inl x \<Rightarrow> (Done internal_error, s)
      | Inr rc \<Rightarrow> (Done \<lparr>status = 200, body = Rows rows\<rparr>, s\<lparr>redisClient := rc\<rparr>))"
| "step e (Post_insert t d) s =
     (if db_fails e then (Done internal_error, s)
      else let (insertId, s1) = insert_todo (db_time e) t d s
           in (Post_del insertId t d, s1))"
| "step e (Post_del insertId t d) s =
     (case cache_del e (redisClient s) of
        Inl x \<Rightarrow> (Done internal_error, s)
      | Inr rc \<Rightarrow>
          (Done \<lparr>status = 201,
                 body = Object
                   [(''id'', JNum (int insertId)),
                    (''title'', JStr t),
                    (''description'', JStr d),
                    (''completed'', JBool False),
                    (''created_at'', JDate (server_time e))]\<rparr>,
           s\<lparr>redisClient := rc\<rparr>))"
| "step e (Put_update i t d c) s =
     (if db_fails e then (Done internal_error, s)
      else let (affectedRows, tbl) = update_todo (db_time e) t d c i (todos s)
           in if affectedRows = 0 then (Done todo_not_found, s\<lparr>todos := tbl\<rparr>)
              else (Put_del, s\<lparr>todos := tbl\<rparr>))"
| "step e Put_del s =
     (case cache_del e (redisClient s) of
        Inl x \<Rightarrow> (Done internal_error, s)
      | Inr rc \<Rightarrow> (Done (message ''Todo updated successfully''), s\<lparr>redisClient := rc\<rparr>))"
| "step e (Delete_exec i) s =
     (if db_fails e then (Done internal_error, s)
      else let (affectedRows, tbl) = delete_todo i (todos s)
           in if affectedRows = 0 then (Done todo_not_found, s\<lparr>todos := tbl\<rparr>)
              else (Delete_del, s\<lparr>todos := tbl\<rparr>))"
| "step e Delete_del s =
     (case cache_del e (redisClient s) of
        Inl x \<Rightarrow> (Done internal_error, s)
      | Inr rc \<Rightarrow> (Done (message ''Todo deleted successfully''), s\<lparr>redisClient := rc\<rparr>))"
| "step e (Done r) s = (Done r, s)"

text \<open>
  The number of calls a task can still make.
\<close>

fun remaining :: "task \<Rightarrow> nat" where
  "remaining Get_cache = 3"
| "remaining Get_query = 2"
| "remaining (Get_store rows) = 1"
| "remaining (Post_insert t d) = 2"
| "remaining (Post_del insertId t d) = 1"
| "remaining (Put_update i t d c) = 2"
| "remaining Put_del = 1"
| "remaining (Delete_exec i) = 2"
| "remaining Delete_del = 1"
| "remaining (Done r) = 0"

text \<open>
  A task served to its response with nothing in between, and the calls it makes on
  the way.
\<close>

lemma step_decreases:
  "awaits t \<noteq> None \<Longrightarrow> remaining (fst (step e t s)) < remaining t"
  by (cases t)
     (auto simp: Let_def split: sum.splits option.splits prod.splits)

function run :: "env \<Rightarrow> task \<Rightarrow> state \<Rightarrow> response \<times> state" where
  "run e t s =
     (case t of
        Done r \<Rightarrow> (r, s)
      | _ \<Rightarrow> run e (fst (step e t s)) (snd (step e t s)))"
  by pat_completeness auto
termination
  by (relation "measure (\<lambda>(e, t, s). remaining t)")
     (auto simp: case_prod_beta simp del: step.simps remaining.simps intro!: step_decreases)

function ops :: "env \<Rightarrow> task \<Rightarrow> state \<Rightarrow> io list" where
  "ops e t s =
     (case awaits t of
        None \<Rightarrow> []
      | Some call \<Rightarrow> call # ops e (fst (step e t s)) (snd (step e t s)))"
  by pat_completeness auto
termination
  by (relation "measure (\<lambda>(e, t, s). remaining t)")
     (auto simp: case_prod_beta simp del: step.simps remaining.simps intro!: step_decreases)

text \<open>
  Requests in flight together. A request arrives and its first code runs, or the
  task at a position takes its next step, in the environment given.
  \<open>exec\<close> plays a schedule of such events from a state and the tasks in
  flight.
\<close>

datatype event = Arrive request | Advance nat env

fun fire :: "state \<times> task list \<Rightarrow> event \<Rightarrow> state \<times> task list" where
  "fire (s, ts) (Arrive rq) = (s, ts @ [start rq])"
| "fire (s, ts) (Advance k e) =
     (if k < length ts
      then (snd (step e (ts ! k) s), ts[k := fst (step e (ts ! k) s)])
      else (s, ts))"

definition exec :: "event list \<Rightarrow> state \<times> task list \<Rightarrow> state \<times> task list" where
  "exec evs c = foldl fire c evs"

section \<open>Notions the properties use\<close>

text \<open>
  Is a value a string?
\<close>

fun is_string :: "jsval \<Rightarrow> bool" where
  "is_string (JStr s) = True"
| "is_string v = False"

text \<open>
  The property names of a response body, in order, and the value of one property.
\<close>

fun fields :: "payload \<Rightarrow> string list" where
  "fields (Object kvs) = map fst kvs"
| "fields (Rows rows) = []"

fun field :: "payload \<Rightarrow> string \<Rightarrow> jsval option" where
  "field (Object kvs) k = map_of kvs k"
| "field (Rows rows) k = None"

text \<open>
  The row a create request with title \<open>t\<close> and description
  \<open>d\<close> leaves in the table: what the INSERT stores for the trimmed
  strings.
\<close>

definition created_row :: "env \<Rightarrow> jstring \<Rightarrow> jstring \<Rightarrow> state \<Rightarrow> todo" where
  "created_row e t d s =
     \<lparr>todo_id = next_id s, title = JStr (trim t), description = JStr (trim d),
      completed = JBool False, created_at = db_time e, updated_at = db_time e\<rparr>"

text \<open>
  A row after an update wrote \<open>t\<close>, \<open>d\<close> and
  \<open>c\<close> to it.
\<close>

definition replaced :: "env \<Rightarrow> jsval \<Rightarrow> jsval \<Rightarrow> jsval \<Rightarrow> todo \<Rightarrow> todo" where
  "replaced e t d c r =
     r\<lparr>title := t, description := d, completed := c, updated_at := db_time e\<rparr>"

text \<open>
  The string a body property holds; the empty string when it is absent.
\<close>

fun str_of :: "jsval option \<Rightarrow> jstring" where
  "str_of (Some (JStr s)) = s"
| "str_of v = []"

text \<open>
  What it means for listed rows to show a mutation: the created row is among them,
  every row of the updated identifier (there is one) carries the values of the
  request, no row of the deleted identifier is left.
\<close>

fun reflects :: "env \<Rightarrow> request \<Rightarrow> state \<Rightarrow> todo list \<Rightarrow> bool" where
  "reflects e GET_todos s rows = True"
| "reflects e (POST_todos b) s rows =
     (created_row e (str_of (b ''title'')) (str_of (b ''description'')) s \<in> set rows)"
| "reflects e (PUT_todos i b) s rows =
     ((\<exists>r\<in>set rows. todo_id r = i)
      \<and> (\<forall>r\<in>set rows. todo_id r = i \<longrightarrow>
            Some (title r) = b ''title'' \<and> Some (description r) = b ''description''
            \<and> Some (completed r) = b ''completed'' \<and> updated_at r = db_time e))"
| "reflects e (DELETE_todos i) s rows = (\<forall>r\<in>set rows. todo_id r \<noteq> i)"

text \<open>
  The cache holds no snapshot under the key, or there is no cache client.
\<close>

definition key_deleted :: "state \<Rightarrow> bool" where
  "key_deleted s = (case redisClient s of Some (Some entry) \<Rightarrow> False | _ \<Rightarrow> True)"

text \<open>
  The snapshot under the key, if there is one, is the ordered list of the rows now
  in the table.
\<close>

definition cache_coherent :: "state \<Rightarrow> bool" where
  "cache_coherent s =
     (case redisClient s of
        Some (Some (rows, expires)) \<Rightarrow> rows = select_todos (todos s)
      | _ \<Rightarrow> True)"






section \<open>Sample environments and states\<close>

text \<open>
  An environment in which nothing fails, at the given clock readings.
\<close>

definition calm :: "nat \<Rightarrow> env" where
  "calm t =
     \<lparr>db_fails = False, get_fails = False, setEx_fails = False, del_fails = False,
      db_time = t, redis_time = t, server_time = t\<rparr>"

text \<open>
  The server clock counts milliseconds and the database clock seconds: an
  environment in which they differ.
\<close>

definition skewed :: env where
  "skewed = (calm 7)\<lparr>server_time := 7250\<rparr>"

text \<open>
  A server that has just started with an empty table and a connected cache.
\<close>

definition fresh_state :: state where
  "fresh_state = \<lparr>todos = [], next_id = 1, redisClient = Some None\<rparr>"

text \<open>
  Request bodies: creates with a padded title and no description, a null
  description, a number as description; updates with a title only, with a title of
  white space, and a full replacement that completes the todo.
\<close>

definition buy_milk :: "string \<rightharpoonup> jsval" where
  "buy_milk = [''title'' \<mapsto> JStr (ascii '' Buy milk '')]"

definition milk_null :: "string \<rightharpoonup> jsval" where
  "milk_null = [''title'' \<mapsto> JStr (ascii '' Buy milk ''), ''description'' \<mapsto> JNull]"

definition milk_number :: "string \<rightharpoonup> jsval" where
  "milk_number = [''title'' \<mapsto> JStr (ascii '' Buy milk ''), ''description'' \<mapsto> JNum 2]"

definition title_only :: "string \<rightharpoonup> jsval" where
  "title_only = [''title'' \<mapsto> JStr (ascii ''Buy milk'')]"

definition blank_update :: "string \<rightharpoonup> jsval" where
  "blank_update = [''title'' \<mapsto> JStr (ascii ''  ''), ''description'' \<mapsto> JStr (ascii '' 2% ''),
                   ''completed'' \<mapsto> JBool True]"

definition milk_update :: "string \<rightharpoonup> jsval" where
  "milk_update = [''title'' \<mapsto> JStr (ascii ''Buy milk''), ''description'' \<mapsto> JStr (ascii ''2%''),
                  ''completed'' \<mapsto> JBool True]"

text \<open>
  Rows, and the response to the create at time 20.
\<close>

definition milk_row :: todo where
  "milk_row = \<lparr>todo_id = 1, title = JStr (ascii ''Buy milk''), description = JStr [],
               completed = JBool False, created_at = 7, updated_at = 7\<rparr>"

definition milk_row20 :: todo where
  "milk_row20 = \<lparr>todo_id = 1, title = JStr (ascii ''Buy milk''), description = JStr [],
               completed = JBool False, created_at = 20, updated_at = 20\<rparr>"


definition eggs_row :: todo where
  "eggs_row = \<lparr>todo_id = 2, title = JStr (ascii ''Eggs''), description = JStr [],
               completed = JBool False, created_at = 20, updated_at = 20\<rparr>"


text \<open>
  Tables of one and of two rows (the older row stored first) without a snapshot, and
  the same with the snapshot a list read leaves.
\<close>

definition one_todo :: state where
  "one_todo = \<lparr>todos = [milk_row], next_id = 2, redisClient = Some None\<rparr>"









definition late_update :: "event list" where
  "late_update =
     [Arrive (PUT_todos 1 milk_update), Arrive (DELETE_todos 1),
      Advance 1 (calm 9), Advance 1 (calm 9), Advance 0 (calm 10)]"

section \<open>Strings and queries\<close>

lemma trim_Nil [simp]: "trim [] = []"
  by (simp add: trim_def)

lemma trim_buy_milk: "trim (ascii '' Buy milk '') = ascii ''Buy milk''"
  by (simp add: trim_def ascii_def is_space_def)

lemma ascii_buy_milk_neq: "ascii ''Buy milk'' \<noteq> []"
  by (simp add: ascii_def)

lemma ascii_padded_neq: "ascii '' Buy milk '' \<noteq> []"
  by (simp add: ascii_def)

lemma set_select_todos [simp]: "set (select_todos tbl) = set tbl"
  by (simp add: select_todos_def)

lemma select_todos_Nil [simp]: "select_todos [] = []"
  by (simp add: select_todos_def)

lemma select_todos_single [simp]: "select_todos [r] = [r]"
  by (simp add: select_todos_def)

lemma select_two [simp]: "select_todos [milk_row, eggs_row] = [eggs_row, milk_row]"
  by (simp add: select_todos_def milk_row_def eggs_row_def)

lemma mset_select_todos [simp]: "mset (select_todos tbl) = mset tbl"
  by (simp add: select_todos_def)


lemma filter_no_match:
  "\<forall>r\<in>set tbl. todo_id r \<noteq> i \<Longrightarrow> filter (\<lambda>r. todo_id r = i) tbl = []"
  by (induction tbl) auto

lemma update_todo_no_match:
  "\<forall>r\<in>set tbl. todo_id r \<noteq> i \<Longrightarrow> update_todo now t d c i tbl = (0, tbl)"
  by (simp add: update_todo_def filter_no_match map_idI)

lemma delete_todo_no_match:
  "\<forall>r\<in>set tbl. todo_id r \<noteq> i \<Longrightarrow> delete_todo i tbl = (0, tbl)"
  by (simp add: delete_todo_def filter_no_match)

lemma update_todo_unaffected:
  "update_todo now t d c i tbl = (0, tbl') \<Longrightarrow> tbl' = tbl"
  by (auto simp: update_todo_def filter_empty_conv map_idI)

lemma delete_todo_unaffected:
  "delete_todo i tbl = (0, tbl') \<Longrightarrow> tbl' = tbl"
  by (auto simp: delete_todo_def filter_empty_conv filter_id_conv)

section \<open>A request served without interruption\<close>

text \<open>
  The handlers of the first part are the tasks run to their response with no other
  step in between.
\<close>

declare run.simps [simp del]

declare ops.simps [simp del]

lemma run_Done [simp]: "run e (Done r) s = (r, s)"
  by (simp add: run.simps)














lemma ops_Done [simp]: "ops e (Done r) s = []"
  by (simp add: ops.simps)

lemma step_del_Done:
  assumes "awaits t = Some Cache_del"
  shows "\<exists>r. fst (step e t s) = Done r"
  using assms by (cases t) (auto split: sum.splits)

lemma ops_del:
  assumes "awaits t = Some Cache_del"
  shows "ops e t s = [Cache_del]"
proof -
  from step_del_Done [OF assms] obtain r where "fst (step e t s) = Done r" by blast
  with assms show ?thesis by (subst ops.simps) simp
qed

lemma ops_put:
  "ops e (start (PUT_todos i b)) s \<in> {[], [Store_update], [Store_update, Cache_del]}"
proof (cases "start (PUT_todos i b)")
  case (Done r)
  then show ?thesis by simp
next
  case (Put_update j t d c)
  have "fst (step e (Put_update j t d c) s) = Put_del
        \<or> (\<exists>r. fst (step e (Put_update j t d c) s) = Done r)"
    by (simp add: Let_def split: prod.split)
  then have "ops e (Put_update j t d c) s \<in> {[Store_update], [Store_update, Cache_del]}"
  proof
    assume "fst (step e (Put_update j t d c) s) = Put_del"
    then show ?thesis by (subst ops.simps) (simp add: ops_del del: step.simps)
  next
    assume "\<exists>r. fst (step e (Put_update j t d c) s) = Done r"
    then obtain r where "fst (step e (Put_update j t d c) s) = Done r" by blast
    then show ?thesis by (subst ops.simps) (simp del: step.simps)
  qed
  with Put_update show ?thesis by simp
qed (auto split: option.splits)

lemma ops_delete:
  "ops e (start (DELETE_todos i)) s \<in> {[Store_delete], [Store_delete, Cache_del]}"
proof -
  have "fst (step e (Delete_exec i) s) = Delete_del
        \<or> (\<exists>r. fst (step e (Delete_exec i) s) = Done r)"
    by (simp add: Let_def split: prod.split)
  then have "ops e (Delete_exec i) s \<in> {[Store_delete], [Store_delete, Cache_del]}"
  proof
    assume "fst (step e (Delete_exec i) s) = Delete_del"
    then show ?thesis by (subst ops.simps) (simp add: ops_del del: step.simps)
  next
    assume "\<exists>r. fst (step e (Delete_exec i) s) = Done r"
    then obtain r where "fst (step e (Delete_exec i) s) = Done r" by blast
    then show ?thesis by (subst ops.simps) (simp del: step.simps)
  qed
  then show ?thesis by simp
qed


lemma step_not_found_iff:
  assumes "\<not> db_fails e"
  shows "(fst (step e (Put_update j t d c) s) = Done todo_not_found
            \<longleftrightarrow> fst (update_todo (db_time e) t d c j (todos s)) = 0)
         \<and> (fst (step e (Delete_exec j) s) = Done todo_not_found
            \<longleftrightarrow> fst (delete_todo j (todos s)) = 0)"
  using assms by (simp add: update_todo_def delete_todo_def)


lemma start_milk_update:
  "start (PUT_todos i milk_update)
     = Put_update i (JStr (ascii ''Buy milk'')) (JStr (ascii ''2%'')) (JBool True)"
  by (simp add: milk_update_def)

section \<open>Create\<close>

subsection \<open>Validation of the title\<close>

text \<open>
  Claim C5. A create request whose title is missing, empty or made of white space
  only is answered 400, which is not the 500 of a server error, and the state
  (table, counter and cache) is left as it was, whatever the environment does.
\<close>

theorem create_rejects_blank_title:
  assumes "b ''title'' = None \<or> (\<exists>t. b ''title'' = Some (JStr t) \<and> trim t = [])"
  shows "post_todos e b s = (title_required, s) \<and> status title_required = 400
         \<and> status title_required \<noteq> status internal_error"
proof -
  have "post_todos e b s = (title_required, s)"
    using assms by (auto simp: post_todos_def)
  then show ?thesis by (simp add: title_required_def internal_error_def)
qed

theorem create_rejects_blank_title_witness:
  "post_todos (calm 7) [''title'' \<mapsto> JStr (ascii ''   '')] fresh_state
     = (title_required, fresh_state)
   \<and> post_todos (calm 7) Map.empty fresh_state = (title_required, fresh_state)"
proof -
  have ws: "trim (ascii ''   '') = []"
    by (simp add: trim_def ascii_def is_space_def)
  have a: "[''title'' \<mapsto> JStr (ascii ''   '')] ''title'' = None
           \<or> (\<exists>t. [''title'' \<mapsto> JStr (ascii ''   '')] ''title'' = Some (JStr t) \<and> trim t = [])"
    using ws by simp
  have b: "(Map.empty :: string \<rightharpoonup> jsval) ''title'' = None
           \<or> (\<exists>t. (Map.empty :: string \<rightharpoonup> jsval) ''title'' = Some (JStr t) \<and> trim t = [])"
    by simp
  show ?thesis
    using create_rejects_blank_title
            [where b = "[''title'' \<mapsto> JStr (ascii ''   '')]" and e = "calm 7"
               and s = fresh_state, OF a]
      create_rejects_blank_title
            [where b = Map.empty and e = "calm 7" and s = fresh_state, OF b]
    by simp
qed

subsection \<open>The inserted row and the response\<close>

lemma post_todos_success:
  assumes "b ''title'' = Some (JStr t)" and "trim t \<noteq> []"
    and "(b ''description'' = None \<and> d = []) \<or> b ''description'' = Some (JStr d)"
    and "\<not> db_fails e" and "redisClient s = None \<or> \<not> del_fails e"
  shows "post_todos e b s =
           (\<lparr>status = 201,
             body = Object [(''id'', JNum (int (next_id s))),
                            (''title'', JStr (trim t)),
                            (''description'', JStr (trim d)),
                            (''completed'', JBool False),
                            (''created_at'', JDate (server_time e))]\<rparr>,
            s\<lparr>todos := todos s @ [created_row e t d s], next_id := Suc (next_id s),
              redisClient := map_option (\<lambda>k. None) (redisClient s)\<rparr>)"
proof -
  from assms(1,2) have tr: "truthy (JStr t)" by auto
  from assms(3) have dv: "trim_method (case b ''description'' of None \<Rightarrow> JStr [] | Some v \<Rightarrow> v) = Inr (trim d)"
    by auto
  show ?thesis
    using assms(1,2,4,5) tr dv
    by (auto simp: post_todos_def insert_todo_def cache_del_def created_row_def Let_def
             split: option.splits)
qed

lemma post_todos_201:
  assumes "post_todos e b s = (r, s')" and "status r = 201"
  obtains t d where "b ''title'' = Some (JStr t)" and "trim t \<noteq> []"
    and "(b ''description'' = None \<and> d = []) \<or> b ''description'' = Some (JStr d)"
    and "\<not> db_fails e" and "redisClient s = None \<or> \<not> del_fails e"
proof (cases "b ''title''")
  case None
  with assms show ?thesis by (auto simp: post_todos_def title_required_def)
next
  case (Some tv)
  note tv = this
  show ?thesis
  proof (cases "is_string tv")
    case False
    then have "trim_method tv = Inl TypeError" by (cases tv) auto
    with assms tv show ?thesis
      by (auto simp: post_todos_def title_required_def internal_error_def split: if_splits)
  next
    case True
    then obtain t where t: "tv = JStr t" by (cases tv) auto
    show ?thesis
    proof (cases "trim t = []")
      case True
      with assms tv t show ?thesis
        by (auto simp: post_todos_def title_required_def split: if_splits)
    next
      case False
      then have tne: "t \<noteq> []" by auto
      define dv where "dv = (case b ''description'' of None \<Rightarrow> JStr [] | Some v \<Rightarrow> v)"
      show ?thesis
      proof (cases "is_string dv")
        case False
        then have "trim_method dv = Inl TypeError" by (cases dv) auto
        with assms tv t tne \<open>trim t \<noteq> []\<close> show ?thesis
          by (auto simp: post_todos_def internal_error_def dv_def)
      next
        case True
        then obtain d where d: "dv = JStr d" by (cases dv) auto
        then have dd: "(b ''description'' = None \<and> d = []) \<or> b ''description'' = Some (JStr d)"
          by (auto simp: dv_def split: option.splits)
        have nf: "\<not> db_fails e"
          using assms tv t tne \<open>trim t \<noteq> []\<close> d
          by (auto simp: post_todos_def internal_error_def dv_def)
        have nd: "redisClient s = None \<or> \<not> del_fails e"
          using assms tv t tne \<open>trim t \<noteq> []\<close> d nf
          by (auto simp: post_todos_def internal_error_def dv_def insert_todo_def cache_del_def
                   split: option.splits)
        from that [OF _ \<open>trim t \<noteq> []\<close> dd nf nd] tv t show ?thesis by simp
      qed
    qed
  qed
qed

lemma post_todos_status:
  "status (fst (post_todos e b s)) \<in> {201, 400, 500}"
  by (simp add: post_todos_def title_required_def internal_error_def Let_def
           split: option.split sum.split prod.split)

lemma post_todos_inserts:
  assumes "b ''title'' = Some (JStr t)" and "trim t \<noteq> []"
    and "(b ''description'' = None \<and> d = []) \<or> b ''description'' = Some (JStr d)"
    and "\<not> db_fails e"
  shows "todos (snd (post_todos e b s)) = todos s @ [created_row e t d s]
         \<and> next_id (snd (post_todos e b s)) = Suc (next_id s)"
proof -
  from assms(1,2) have tr: "truthy (JStr t)" by auto
  from assms(3)
  have dv: "trim_method (case b ''description'' of None \<Rightarrow> JStr [] | Some v \<Rightarrow> v) = Inr (trim d)"
    by auto
  show ?thesis
    using assms(1,2,4) tr dv
    by (simp add: post_todos_def insert_todo_def created_row_def Let_def split: sum.split)
qed

text \<open>
  Claim C4, amended. A create request whose title is a string that is not empty
  after trimming and whose description is omitted or a string inserts, when the
  store executes the statement, one row with the trimmed title, the trimmed
  description (the empty string when it is omitted) and \<open>completed =
  false\<close>, and the row is among those a list query returns, whether or not the
  cache invalidation raises. When the invalidation does not raise, the response is
  201 and carries the identifier the store assigned with the same normalized values.
\<close>

theorem create_inserts_normalized_row:
  assumes "b ''title'' = Some (JStr t)" and "trim t \<noteq> []"
    and "(b ''description'' = None \<and> d = []) \<or> b ''description'' = Some (JStr d)"
    and "\<not> db_fails e"
  shows "todos (snd (post_todos e b s)) = todos s @ [created_row e t d s]
         \<and> next_id (snd (post_todos e b s)) = Suc (next_id s)
         \<and> created_row e t d s \<in> set (select_todos (todos (snd (post_todos e b s))))
         \<and> (redisClient s = None \<or> \<not> del_fails e \<longrightarrow>
              post_todos e b s =
                (\<lparr>status = 201,
                  body = Object [(''id'', JNum (int (next_id s))),
                                 (''title'', JStr (trim t)),
                                 (''description'', JStr (trim d)),
                                 (''completed'', JBool False),
                                 (''created_at'', JDate (server_time e))]\<rparr>,
                 s\<lparr>todos := todos s @ [created_row e t d s], next_id := Suc (next_id s),
                   redisClient := map_option (\<lambda>k. None) (redisClient s)\<rparr>))"
proof -
  note ins = post_todos_inserts [where b = b and e = e and s = s, OF assms]
  have "post_todos e b s =
                (\<lparr>status = 201,
                  body = Object [(''id'', JNum (int (next_id s))),
                                 (''title'', JStr (trim t)),
                                 (''description'', JStr (trim d)),
                                 (''completed'', JBool False),
                                 (''created_at'', JDate (server_time e))]\<rparr>,
                 s\<lparr>todos := todos s @ [created_row e t d s], next_id := Suc (next_id s),
                   redisClient := map_option (\<lambda>k. None) (redisClient s)\<rparr>)"
    if "redisClient s = None \<or> \<not> del_fails e"
    using post_todos_success [where b = b and e = e and s = s, OF assms that] .
  with ins show ?thesis by simp
qed

theorem create_inserts_normalized_row_witness:
  "post_todos (calm 7) buy_milk fresh_state =
     (\<lparr>status = 201,
       body = Object [(''id'', JNum 1),
                      (''title'', JStr (ascii ''Buy milk'')),
                      (''description'', JStr []),
                      (''completed'', JBool False),
                      (''created_at'', JDate 7)]\<rparr>,
      \<lparr>todos = [milk_row], next_id = 2, redisClient = Some None\<rparr>)
   \<and> todos (snd (post_todos ((calm 20)\<lparr>del_fails := True\<rparr>) buy_milk fresh_state)) = [milk_row20]"
proof -
  have h1: "buy_milk ''title'' = Some (JStr (ascii '' Buy milk ''))"
    by (simp add: buy_milk_def)
  have h2: "trim (ascii '' Buy milk '') \<noteq> []"
    by (simp add: trim_buy_milk ascii_buy_milk_neq)
  have h3: "(buy_milk ''description'' = None \<and> [] = ([] :: jstring))
            \<or> buy_milk ''description'' = Some (JStr [])"
    by (simp add: buy_milk_def)
  have h4: "\<not> db_fails (calm 7)" by (simp add: calm_def)
  have h4': "\<not> db_fails ((calm 20)\<lparr>del_fails := True\<rparr>)" by (simp add: calm_def)
  have h5: "redisClient fresh_state = None \<or> \<not> del_fails (calm 7)" by (simp add: calm_def)
  from create_inserts_normalized_row
         [where b = buy_milk and e = "calm 7" and s = fresh_state, OF h1 h2 h3 h4] h5
  have a: "post_todos (calm 7) buy_milk fresh_state =
     (\<lparr>status = 201,
       body = Object [(''id'', JNum 1),
                      (''title'', JStr (ascii ''Buy milk'')),
                      (''description'', JStr []),
                      (''completed'', JBool False),
                      (''created_at'', JDate 7)]\<rparr>,
      \<lparr>todos = [milk_row], next_id = 2, redisClient = Some None\<rparr>)"
    by (simp add: trim_buy_milk created_row_def calm_def fresh_state_def milk_row_def)
  from create_inserts_normalized_row
         [where b = buy_milk and e = "(calm 20)\<lparr>del_fails := True\<rparr>" and s = fresh_state,
          OF h1 h2 h3 h4']
  have b: "todos (snd (post_todos ((calm 20)\<lparr>del_fails := True\<rparr>) buy_milk fresh_state))
           = [milk_row20]"
    by (simp add: trim_buy_milk created_row_def calm_def fresh_state_def milk_row20_def)
  from a b show ?thesis by simp
qed

text \<open>
  A description that is present but not a string cannot be trimmed: with the number
  2 as description and a title that is not empty after trimming, the answer is 500
  and no row is inserted.
\<close>

theorem create_number_description_counterexample:
  "post_todos (calm 7) milk_number fresh_state = (internal_error, fresh_state)
   \<and> status internal_error = 500
   \<and> trim (ascii '' Buy milk '') = ascii ''Buy milk''
   \<and> todos fresh_state = []"
  by (simp add: post_todos_def milk_number_def trim_buy_milk ascii_buy_milk_neq ascii_padded_neq
                internal_error_def fresh_state_def)

text \<open>
  Claim C9. The default of \<open>description\<close> applies to an absent property
  only. With a valid title and a description that is present but not a string (null,
  a number, a boolean, an array, an object) the handler raises before the insert:
  the answer is 500 and the state is unchanged, in every environment. The same
  request without the property is answered 201 with the empty description.
\<close>

theorem create_null_description_fails:
  assumes "b ''title'' = Some (JStr t)" and "trim t \<noteq> []"
    and "b ''description'' = Some v" and "\<not> is_string v"
  shows "post_todos e b s = (internal_error, s) \<and> status internal_error = 500
         \<and> (\<not> db_fails e \<and> (redisClient s = None \<or> \<not> del_fails e) \<longrightarrow>
              status (fst (post_todos e (b(''description'' := None)) s)) = 201
              \<and> field (body (fst (post_todos e (b(''description'' := None)) s))) ''description''
                  = Some (JStr []))"
proof -
  from assms(1,2) have tr: "truthy (JStr t)" by auto
  from assms(4) have "trim_method v = Inl TypeError" by (cases v) auto
  with assms(1,2,3) tr have a: "post_todos e b s = (internal_error, s)"
    by (simp add: post_todos_def)
  have b: "status (fst (post_todos e (b(''description'' := None)) s)) = 201
         \<and> field (body (fst (post_todos e (b(''description'' := None)) s))) ''description'' = Some (JStr [])"
    if "\<not> db_fails e" "redisClient s = None \<or> \<not> del_fails e"
  proof -
    have "(b(''description'' := None)) ''title'' = Some (JStr t)"
      using assms(1) by simp
    from post_todos_success
           [where b = "b(''description'' := None)" and d = "[]" and t = t
              and e = e and s = s, OF this assms(2) _ that]
    show ?thesis by simp
  qed
  show ?thesis using a b by (simp add: internal_error_def)
qed

theorem create_null_description_fails_witness:
  "post_todos (calm 7) milk_null fresh_state = (internal_error, fresh_state)
   \<and> status (fst (post_todos (calm 7) (milk_null(''description'' := None)) fresh_state)) = 201"
proof -
  have h1: "milk_null ''title'' = Some (JStr (ascii '' Buy milk ''))"
    by (simp add: milk_null_def)
  have h2: "trim (ascii '' Buy milk '') \<noteq> []"
    by (simp add: trim_buy_milk ascii_buy_milk_neq)
  have h3: "milk_null ''description'' = Some JNull"
    by (simp add: milk_null_def)
  have h4: "\<not> is_string JNull" by simp
  have h5: "\<not> db_fails (calm 7) \<and> (redisClient fresh_state = None \<or> \<not> del_fails (calm 7))"
    by (simp add: calm_def)
  show ?thesis
    using create_null_description_fails
            [where b = milk_null and e = "calm 7" and s = fresh_state, OF h1 h2 h3 h4] h5
    by simp
qed

text \<open>
  Claim C10. The body of a 201 response has exactly the properties
  \<open>id\<close>, \<open>title\<close>, \<open>description\<close>,
  \<open>completed\<close> and \<open>created_at\<close>, and no
  \<open>updated_at\<close>. Its \<open>created_at\<close> is the reading of the
  server's clock, while the timestamps of the stored row are readings of the
  database clock, and the response stays the same whatever the database clock shows:
  it is not read back from the store.
\<close>

theorem create_response_built_by_handler:
  assumes "post_todos e b s = (r, s')" and "status r = 201"
  shows "fields (body r) = [''id'', ''title'', ''description'', ''completed'', ''created_at'']
         \<and> field (body r) ''updated_at'' = None
         \<and> field (body r) ''created_at'' = Some (JDate (server_time e))
         \<and> (\<exists>row. todos s' = todos s @ [row] \<and> created_at row = db_time e
                   \<and> updated_at row = db_time e)
         \<and> (\<forall>t. fst (post_todos (e\<lparr>db_time := t\<rparr>) b s) = r)"
proof -
  from assms obtain t d where h: "b ''title'' = Some (JStr t)" "trim t \<noteq> []"
    "(b ''description'' = None \<and> d = []) \<or> b ''description'' = Some (JStr d)"
    "\<not> db_fails e" "redisClient s = None \<or> \<not> del_fails e"
    by (rule post_todos_201)
  note eq = post_todos_success [where b = b and e = e and s = s, OF h]
  have eq': "fst (post_todos (e\<lparr>db_time := u\<rparr>) b s) = r" for u
    using post_todos_success [where b = b and e = "e\<lparr>db_time := u\<rparr>" and s = s, OF h(1,2,3)]
      h(4,5) eq assms(1)
    by simp
  from eq assms(1) have r: "r = \<lparr>status = 201,
             body = Object [(''id'', JNum (int (next_id s))),
                            (''title'', JStr (trim t)),
                            (''description'', JStr (trim d)),
                            (''completed'', JBool False),
                            (''created_at'', JDate (server_time e))]\<rparr>"
    and s': "todos s' = todos s @ [created_row e t d s]" by auto
  show ?thesis using r s' eq' by (simp add: created_row_def)
qed

theorem create_response_built_by_handler_witness:
  "status (fst (post_todos skewed buy_milk fresh_state)) = 201
   \<and> field (body (fst (post_todos skewed buy_milk fresh_state))) ''created_at'' = Some (JDate 7250)
   \<and> map created_at (todos (snd (post_todos skewed buy_milk fresh_state))) = [7]"
proof -
  have h1: "buy_milk ''title'' = Some (JStr (ascii '' Buy milk ''))"
    by (simp add: buy_milk_def)
  have h2: "trim (ascii '' Buy milk '') \<noteq> []"
    by (simp add: trim_buy_milk ascii_buy_milk_neq)
  have h3: "(buy_milk ''description'' = None \<and> [] = ([] :: jstring))
            \<or> buy_milk ''description'' = Some (JStr [])"
    by (simp add: buy_milk_def)
  have h4: "\<not> db_fails skewed" by (simp add: skewed_def calm_def)
  have h5: "redisClient fresh_state = None \<or> \<not> del_fails skewed"
    by (simp add: skewed_def calm_def)
  note run = post_todos_success
               [where b = buy_milk and e = skewed and s = fresh_state, OF h1 h2 h3 h4 h5]
  have st: "status (fst (post_todos skewed buy_milk fresh_state)) = 201"
    by (simp add: run)
  have pr: "post_todos skewed buy_milk fresh_state
            = (fst (post_todos skewed buy_milk fresh_state),
               snd (post_todos skewed buy_milk fresh_state))"
    by simp
  from create_response_built_by_handler [OF pr st] st
  show ?thesis
    by (auto simp: skewed_def calm_def fresh_state_def)
qed

section \<open>Update and delete\<close>

lemma put_todos_table:
  "todos (snd (put_todos e i b s)) = todos s
   \<or> (\<exists>t d c. b ''title'' = Some t \<and> b ''description'' = Some d \<and> b ''completed'' = Some c
        \<and> \<not> db_fails e \<and> todos (snd (put_todos e i b s)) = snd (update_todo (db_time e) t d c i (todos s)))"
  by (auto simp: put_todos_def Let_def split: option.splits sum.splits prod.splits)

lemma delete_todos_table:
  "todos (snd (delete_todos e i s)) = todos s
   \<or> (\<not> db_fails e \<and> todos (snd (delete_todos e i s)) = snd (delete_todo i (todos s)))"
  by (auto simp: delete_todos_def Let_def split: option.splits sum.splits prod.splits)

lemma put_todos_missing:
  assumes "b ''title'' = None \<or> b ''description'' = None \<or> b ''completed'' = None"
  shows "put_todos e i b s = (internal_error, s)"
  using assms by (auto simp: put_todos_def split: option.splits)

lemma put_todos_writes:
  assumes "b ''title'' = Some t" and "b ''description'' = Some d" and "b ''completed'' = Some c"
    and "\<not> db_fails e"
  shows "todos (snd (put_todos e i b s))
           = map (\<lambda>x. if todo_id x = i then replaced e t d c x else x) (todos s)"
  using assms
  by (simp add: put_todos_def update_todo_def replaced_def Let_def split: sum.split)

lemma put_todos_success:
  assumes "b ''title'' = Some t" and "b ''description'' = Some d" and "b ''completed'' = Some c"
    and "\<not> db_fails e" and "redisClient s = None \<or> \<not> del_fails e"
    and "r \<in> set (todos s)" and "todo_id r = i"
  shows "put_todos e i b s =
           (message ''Todo updated successfully'',
            s\<lparr>todos := map (\<lambda>x. if todo_id x = i then replaced e t d c x else x) (todos s),
              redisClient := map_option (\<lambda>k. None) (redisClient s)\<rparr>)"
proof -
  from assms(6,7) have "filter (\<lambda>r. todo_id r = i) (todos s) \<noteq> []"
    by (auto simp: filter_empty_conv)
  then show ?thesis
    using assms(1-5)
    by (auto simp: put_todos_def update_todo_def cache_del_def replaced_def split: option.splits)
qed

lemma put_todos_200:
  assumes "put_todos e i b s = (r, s')" and "status r = 200"
  obtains t d c x where "b ''title'' = Some t" and "b ''description'' = Some d"
    and "b ''completed'' = Some c" and "\<not> db_fails e"
    and "redisClient s = None \<or> \<not> del_fails e" and "x \<in> set (todos s)" and "todo_id x = i"
proof -
  from assms obtain t d c where f: "b ''title'' = Some t" "b ''description'' = Some d"
      "b ''completed'' = Some c"
    by (auto simp: put_todos_def internal_error_def split: option.splits)
  from assms f have nf: "\<not> db_fails e"
    by (auto simp: put_todos_def internal_error_def)
  from assms f nf have ne: "filter (\<lambda>r. todo_id r = i) (todos s) \<noteq> []"
    by (auto simp: put_todos_def update_todo_def todo_not_found_def)
  then obtain x where x: "x \<in> set (todos s)" "todo_id x = i"
    by (auto simp: filter_empty_conv)
  from assms f nf ne have nd: "redisClient s = None \<or> \<not> del_fails e"
    by (auto simp: put_todos_def update_todo_def cache_del_def internal_error_def
             split: option.splits)
  from that [OF f nf nd x] show ?thesis .
qed

lemma put_todos_status:
  "status (fst (put_todos e i b s)) \<in> {200, 404, 500}"
  by (simp add: put_todos_def todo_not_found_def internal_error_def message_def Let_def
           split: option.split sum.split prod.split)

lemma delete_todos_success:
  assumes "\<not> db_fails e" and "redisClient s = None \<or> \<not> del_fails e"
    and "x \<in> set (todos s)" and "todo_id x = i"
  shows "delete_todos e i s =
           (message ''Todo deleted successfully'',
            s\<lparr>todos := filter (\<lambda>r. todo_id r \<noteq> i) (todos s),
              redisClient := map_option (\<lambda>k. None) (redisClient s)\<rparr>)"
proof -
  from assms(3,4) have "filter (\<lambda>r. todo_id r = i) (todos s) \<noteq> []"
    by (auto simp: filter_empty_conv)
  then show ?thesis
    using assms(1,2)
    by (auto simp: delete_todos_def delete_todo_def cache_del_def split: option.splits)
qed

lemma delete_todos_200:
  assumes "delete_todos e i s = (r, s')" and "status r = 200"
  obtains x where "\<not> db_fails e" and "redisClient s = None \<or> \<not> del_fails e"
    and "x \<in> set (todos s)" and "todo_id x = i"
proof -
  from assms have nf: "\<not> db_fails e"
    by (auto simp: delete_todos_def internal_error_def split: if_splits)
  from assms nf have ne: "filter (\<lambda>r. todo_id r = i) (todos s) \<noteq> []"
    by (auto simp: delete_todos_def delete_todo_def todo_not_found_def)
  then obtain x where x: "x \<in> set (todos s)" "todo_id x = i"
    by (auto simp: filter_empty_conv)
  from assms nf ne have nd: "redisClient s = None \<or> \<not> del_fails e"
    by (auto simp: delete_todos_def delete_todo_def cache_del_def internal_error_def
             split: option.splits)
  from that [OF nf nd x] show ?thesis .
qed

lemma delete_todos_status:
  "status (fst (delete_todos e i s)) \<in> {200, 404, 500}"
  by (simp add: delete_todos_def todo_not_found_def internal_error_def message_def Let_def
           split: option.split sum.split prod.split)

lemma late_update_run:
  "exec late_update (one_todo, [])
     = (\<lparr>todos = [], next_id = 2, redisClient = Some None\<rparr>,
        [Done todo_not_found, Done (message ''Todo deleted successfully'')])"
  by (simp add: late_update_def exec_def one_todo_def milk_row_def milk_update_def calm_def
                delete_todo_def update_todo_def cache_del_def)

text \<open>
  Claim C6, amended. When no row has the identifier of an update or delete request,
  no row is changed, whatever the environment does; a delete, and an update whose
  body carries title, description and completed, is answered 404 when the store
  executes the statement. An update whose body lacks one of the three properties is
  answered 500 and makes no call at all. The handlers send no query before the
  statement: the calls of an update are at most the UPDATE and the deletion of the
  cache key, those of a delete the DELETE and the deletion of the cache key, and a
  task answers not-found exactly when its statement, in the state in which it
  executes, affects no row.
\<close>

theorem unknown_id_not_found:
  "((\<forall>r\<in>set (todos s). todo_id r \<noteq> i) \<longrightarrow>
      todos (snd (put_todos e i b s)) = todos s
      \<and> todos (snd (delete_todos e i s)) = todos s
      \<and> (\<not> db_fails e \<and> b ''title'' = Some t \<and> b ''description'' = Some d
           \<and> b ''completed'' = Some c \<longrightarrow>
           fst (update_todo (db_time e) t d c i (todos s)) = 0
           \<and> put_todos e i b s = (todo_not_found, s))
      \<and> (\<not> db_fails e \<longrightarrow>
           fst (delete_todo i (todos s)) = 0
           \<and> delete_todos e i s = (todo_not_found, s)))
   \<and> (b ''title'' = None \<or> b ''description'' = None \<or> b ''completed'' = None \<longrightarrow>
        put_todos e i b s = (internal_error, s)
        \<and> ops e (start (PUT_todos i b)) s = [])
   \<and> status todo_not_found = 404 \<and> status internal_error = 500
   \<and> Store_select \<notin> set (ops e (start (PUT_todos i b)) s)
   \<and> ops e (start (PUT_todos i b)) s \<in> {[], [Store_update], [Store_update, Cache_del]}
   \<and> Store_select \<notin> set (ops e (start (DELETE_todos i)) s)
   \<and> ops e (start (DELETE_todos i)) s \<in> {[Store_delete], [Store_delete, Cache_del]}
   \<and> (\<not> db_fails e \<longrightarrow>
        (fst (step e (Put_update j t d c) s0) = Done todo_not_found
           \<longleftrightarrow> fst (update_todo (db_time e) t d c j (todos s0)) = 0)
        \<and> (fst (step e (Delete_exec j) s0) = Done todo_not_found
           \<longleftrightarrow> fst (delete_todo j (todos s0)) = 0))"
proof -
  have 1: "todos (snd (put_todos e i b s)) = todos s
      \<and> todos (snd (delete_todos e i s)) = todos s
      \<and> (\<not> db_fails e \<and> b ''title'' = Some t \<and> b ''description'' = Some d
           \<and> b ''completed'' = Some c \<longrightarrow>
           fst (update_todo (db_time e) t d c i (todos s)) = 0
           \<and> put_todos e i b s = (todo_not_found, s))
      \<and> (\<not> db_fails e \<longrightarrow>
           fst (delete_todo i (todos s)) = 0
           \<and> delete_todos e i s = (todo_not_found, s))"
    if nm: "\<forall>r\<in>set (todos s). todo_id r \<noteq> i"
  proof -
    note u = update_todo_no_match [OF nm]
    note d = delete_todo_no_match [OF nm]
    have a: "todos (snd (put_todos e i b s)) = todos s"
      using put_todos_table [of e i b s] u by auto
    have b: "todos (snd (delete_todos e i s)) = todos s"
      using delete_todos_table [of e i s] d by auto
    have c: "put_todos e i b s = (todo_not_found, s)"
      if "\<not> db_fails e" "b ''title'' = Some t" "b ''description'' = Some d"
         "b ''completed'' = Some c"
      using that u by (simp add: put_todos_def)
    have dd: "delete_todos e i s = (todo_not_found, s)" if "\<not> db_fails e"
      using that d by (simp add: delete_todos_def)
    have u0: "fst (update_todo (db_time e) t d c i (todos s)) = 0" by (simp add: u)
    have d0: "fst (delete_todo i (todos s)) = 0" by (simp add: d)
    show ?thesis using a b c dd u0 d0 by blast
  qed
  have 2: "put_todos e i b s = (internal_error, s) \<and> ops e (start (PUT_todos i b)) s = []"
    if m: "b ''title'' = None \<or> b ''description'' = None \<or> b ''completed'' = None"
  proof -
    from m have "start (PUT_todos i b) = Done internal_error"
      by (auto split: option.splits)
    with put_todos_missing [OF m] show ?thesis by simp
  qed
  have 3: "status todo_not_found = 404" "status internal_error = 500"
    by (simp_all add: todo_not_found_def internal_error_def)
  have 4: "Store_select \<notin> set (ops e (start (PUT_todos i b)) s)"
    using ops_put [of e i b s] by auto
  have 5: "Store_select \<notin> set (ops e (start (DELETE_todos i)) s)"
    using ops_delete [of e i s] by auto
  note 6 = step_not_found_iff [of e j t d c s0]
  show ?thesis
    using 1 2 3 4 5 6 ops_put [of e i b s] ops_delete [of e i s] by blast
qed

theorem unknown_id_not_found_witness:
  "put_todos (calm 9) 99 milk_update one_todo = (todo_not_found, one_todo)
   \<and> delete_todos (calm 9) 99 one_todo = (todo_not_found, one_todo)
   \<and> status todo_not_found = 404
   \<and> put_todos (calm 9) 99 Map.empty one_todo = (internal_error, one_todo)
   \<and> ops (calm 9) (start (PUT_todos 99 milk_update)) one_todo = [Store_update]
   \<and> ops (calm 9) (start (DELETE_todos 99)) one_todo = [Store_delete]
   \<and> map todo_id (todos one_todo) = [1]
   \<and> snd (exec late_update (one_todo, []))
       = [Done todo_not_found, Done (message ''Todo deleted successfully'')]
   \<and> fst (step (calm 10) (Put_update 1 (JStr (ascii ''Buy milk'')) (JStr (ascii ''2%''))
                (JBool True)) \<lparr>todos = [], next_id = 2, redisClient = Some None\<rparr>)
       = Done todo_not_found"
proof -
  let ?gone = "\<lparr>todos = [], next_id = 2, redisClient = Some (None :: (todo list \<times> nat) option)\<rparr>"
  have h: "\<forall>r\<in>set (todos one_todo). todo_id r \<noteq> 99"
    by (simp add: one_todo_def milk_row_def)
  have p: "\<not> db_fails (calm 9) \<and> milk_update ''title'' = Some (JStr (ascii ''Buy milk''))
           \<and> milk_update ''description'' = Some (JStr (ascii ''2%''))
           \<and> milk_update ''completed'' = Some (JBool True)"
    by (simp add: calm_def milk_update_def)
  have q: "(Map.empty :: string \<rightharpoonup> jsval) ''title'' = None" by simp
  have nf: "\<not> db_fails (calm 10)" by (simp add: calm_def)
  have z: "fst (update_todo (db_time (calm 10)) (JStr (ascii ''Buy milk'')) (JStr (ascii ''2%''))
                 (JBool True) 1 (todos ?gone)) = 0"
    by (simp add: update_todo_def)
  have ids: "map todo_id (todos one_todo) = [1]" by (simp add: one_todo_def milk_row_def)
  note A = unknown_id_not_found
             [where s = one_todo and i = 99 and e = "calm 9" and b = milk_update
                and t = "JStr (ascii ''Buy milk'')" and d = "JStr (ascii ''2%'')"
                and c = "JBool True" and ?s0.0 = ?gone and j = 1]
  note B = unknown_id_not_found
             [where s = one_todo and i = 99 and e = "calm 9" and b = Map.empty
                and t = "JStr (ascii ''Buy milk'')" and d = "JStr (ascii ''2%'')"
                and c = "JBool True" and ?s0.0 = ?gone and j = 1]
  note C = unknown_id_not_found
             [where s = one_todo and i = 99 and e = "calm 10" and b = milk_update
                and t = "JStr (ascii ''Buy milk'')" and d = "JStr (ascii ''2%'')"
                and c = "JBool True" and ?s0.0 = ?gone and j = 1]
  from A h p have a1: "put_todos (calm 9) 99 milk_update one_todo = (todo_not_found, one_todo)"
    and a2: "delete_todos (calm 9) 99 one_todo = (todo_not_found, one_todo)"
    and a3: "status todo_not_found = 404"
    by simp_all
  from B q have b1: "put_todos (calm 9) 99 Map.empty one_todo = (internal_error, one_todo)"
    by simp
  from C nf z have c1: "fst (step (calm 10) (Put_update 1 (JStr (ascii ''Buy milk''))
                (JStr (ascii ''2%'')) (JBool True)) ?gone) = Done todo_not_found"
    by blast
  have o1: "ops (calm 9) (start (PUT_todos 99 milk_update)) one_todo = [Store_update]"
    by (simp only: start_milk_update, subst ops.simps)
       (simp add: one_todo_def milk_row_def update_todo_def calm_def)
  have o2: "ops (calm 9) (start (DELETE_todos 99)) one_todo = [Store_delete]"
    by (simp, subst ops.simps)
       (simp add: one_todo_def milk_row_def delete_todo_def calm_def)
  have r: "snd (exec late_update (one_todo, []))
       = [Done todo_not_found, Done (message ''Todo deleted successfully'')]"
    by (simp add: late_update_run)
  from a1 a2 a3 b1 c1 o1 o2 ids r show ?thesis by blast
qed

text \<open>
  An update of an identifier no row has, with a body that carries a title only, is
  answered 500, not 404.
\<close>

theorem unknown_id_missing_property_counterexample:
  "put_todos (calm 9) 99 title_only one_todo = (internal_error, one_todo)
   \<and> status internal_error = 500
   \<and> map todo_id (todos one_todo) = [1]
   \<and> \<not> db_fails (calm 9)"
  by (simp add: put_todos_def title_only_def internal_error_def one_todo_def milk_row_def
                calm_def)

text \<open>
  Claim C7, amended. An update of an existing identifier whose body carries title,
  description and completed, executed by the store, writes the three values to every
  row with that identifier as they were received, untrimmed and unvalidated, and
  sets \<open>updated_at\<close> to the database clock; identifiers and creation
  timestamps stay as they were and the other rows are untouched, whether or not the
  cache invalidation raises. When the invalidation does not raise, the answer is
  200. A body that lacks one of the three properties is answered 500 and nothing is
  written.
\<close>

theorem update_writes_values_as_received:
  "(b ''title'' = Some t \<and> b ''description'' = Some d \<and> b ''completed'' = Some c
      \<and> \<not> db_fails e \<and> r \<in> set (todos s) \<and> todo_id r = i \<longrightarrow>
      length (todos (snd (put_todos e i b s))) = length (todos s)
      \<and> (\<forall>k < length (todos s).
           let old = todos s ! k; new = todos (snd (put_todos e i b s)) ! k
           in todo_id new = todo_id old \<and> created_at new = created_at old
              \<and> (if todo_id old = i
                  then title new = t \<and> description new = d \<and> completed new = c
                       \<and> updated_at new = db_time e
                  else new = old))
      \<and> (redisClient s = None \<or> \<not> del_fails e \<longrightarrow>
           fst (put_todos e i b s) = message ''Todo updated successfully''
           \<and> status (fst (put_todos e i b s)) = 200))
   \<and> (b ''title'' = None \<or> b ''description'' = None \<or> b ''completed'' = None \<longrightarrow>
        put_todos e i b s = (internal_error, s) \<and> status internal_error = 500)"
proof (intro conjI impI)
  assume a: "b ''title'' = Some t \<and> b ''description'' = Some d \<and> b ''completed'' = Some c
      \<and> \<not> db_fails e \<and> r \<in> set (todos s) \<and> todo_id r = i"
  then have f: "b ''title'' = Some t" "b ''description'' = Some d" "b ''completed'' = Some c"
    "\<not> db_fails e" and x: "r \<in> set (todos s)" "todo_id r = i" by simp_all
  note w = put_todos_writes [where b = b and e = e and s = s and i = i, OF f]
  show "length (todos (snd (put_todos e i b s))) = length (todos s)"
    unfolding w by simp
  show "\<forall>k < length (todos s).
           let old = todos s ! k; new = todos (snd (put_todos e i b s)) ! k
           in todo_id new = todo_id old \<and> created_at new = created_at old
              \<and> (if todo_id old = i
                  then title new = t \<and> description new = d \<and> completed new = c
                       \<and> updated_at new = db_time e
                  else new = old)"
    unfolding w by (simp add: replaced_def Let_def)
  assume n: "redisClient s = None \<or> \<not> del_fails e"
  note eq = put_todos_success [where b = b and e = e and s = s, OF f n x]
  show "fst (put_todos e i b s) = message ''Todo updated successfully''"
    unfolding eq by simp
  show "status (fst (put_todos e i b s)) = 200"
    unfolding eq by (simp add: message_def)
next
  assume m: "b ''title'' = None \<or> b ''description'' = None \<or> b ''completed'' = None"
  show "put_todos e i b s = (internal_error, s)" by (rule put_todos_missing [OF m])
  show "status internal_error = 500" by (simp add: internal_error_def)
qed

theorem update_writes_values_as_received_witness:
  "status (fst (put_todos (calm 9) 1 blank_update one_todo)) = 200
   \<and> title (todos (snd (put_todos (calm 9) 1 blank_update one_todo)) ! 0) = JStr (ascii ''  '')
   \<and> description (todos (snd (put_todos (calm 9) 1 blank_update one_todo)) ! 0)
        = JStr (ascii '' 2% '')
   \<and> completed (todos (snd (put_todos (calm 9) 1 blank_update one_todo)) ! 0) = JBool True
   \<and> updated_at (todos (snd (put_todos (calm 9) 1 blank_update one_todo)) ! 0) = 9
   \<and> created_at (todos (snd (put_todos (calm 9) 1 blank_update one_todo)) ! 0) = 7
   \<and> todo_id (todos (snd (put_todos (calm 9) 1 blank_update one_todo)) ! 0) = 1
   \<and> title (todos (snd (put_todos ((calm 9)\<lparr>del_fails := True\<rparr>) 1 blank_update one_todo)) ! 0)
        = JStr (ascii ''  '')
   \<and> put_todos (calm 9) 1 Map.empty one_todo = (internal_error, one_todo)"
proof -
  have h: "blank_update ''title'' = Some (JStr (ascii ''  ''))
           \<and> blank_update ''description'' = Some (JStr (ascii '' 2% ''))
           \<and> blank_update ''completed'' = Some (JBool True)
           \<and> \<not> db_fails (calm 9) \<and> milk_row \<in> set (todos one_todo) \<and> todo_id milk_row = 1"
    by (simp add: blank_update_def calm_def one_todo_def milk_row_def)
  have h': "blank_update ''title'' = Some (JStr (ascii ''  ''))
           \<and> blank_update ''description'' = Some (JStr (ascii '' 2% ''))
           \<and> blank_update ''completed'' = Some (JBool True)
           \<and> \<not> db_fails ((calm 9)\<lparr>del_fails := True\<rparr>) \<and> milk_row \<in> set (todos one_todo)
           \<and> todo_id milk_row = 1"
    by (simp add: blank_update_def calm_def one_todo_def milk_row_def)
  have n: "redisClient one_todo = None \<or> \<not> del_fails (calm 9)" by (simp add: calm_def)
  have q: "(Map.empty :: string \<rightharpoonup> jsval) ''title'' = None" by simp
  have len: "0 < length (todos one_todo)" by (simp add: one_todo_def)
  have old: "todos one_todo ! 0 = milk_row" by (simp add: one_todo_def)
  note A = update_writes_values_as_received
             [where b = blank_update and e = "calm 9" and s = one_todo and i = 1
                and r = milk_row and t = "JStr (ascii ''  '')" and d = "JStr (ascii '' 2% '')"
                and c = "JBool True"]
  note B = update_writes_values_as_received
             [where b = blank_update and e = "(calm 9)\<lparr>del_fails := True\<rparr>" and s = one_todo
                and i = 1 and r = milk_row and t = "JStr (ascii ''  '')"
                and d = "JStr (ascii '' 2% '')" and c = "JBool True"]
  note C = update_writes_values_as_received
             [where b = Map.empty and e = "calm 9" and s = one_todo and i = 1
                and r = milk_row and t = "JStr (ascii ''  '')" and d = "JStr (ascii '' 2% '')"
                and c = "JBool True"]
  from A h n len old
  have a: "status (fst (put_todos (calm 9) 1 blank_update one_todo)) = 200
   \<and> title (todos (snd (put_todos (calm 9) 1 blank_update one_todo)) ! 0) = JStr (ascii ''  '')
   \<and> description (todos (snd (put_todos (calm 9) 1 blank_update one_todo)) ! 0)
        = JStr (ascii '' 2% '')
   \<and> completed (todos (snd (put_todos (calm 9) 1 blank_update one_todo)) ! 0) = JBool True
   \<and> updated_at (todos (snd (put_todos (calm 9) 1 blank_update one_todo)) ! 0) = 9
   \<and> created_at (todos (snd (put_todos (calm 9) 1 blank_update one_todo)) ! 0) = 7
   \<and> todo_id (todos (snd (put_todos (calm 9) 1 blank_update one_todo)) ! 0) = 1"
    by (auto simp: Let_def milk_row_def calm_def)
  from B h' len old
  have b: "title (todos (snd (put_todos ((calm 9)\<lparr>del_fails := True\<rparr>) 1 blank_update one_todo)) ! 0)
        = JStr (ascii ''  '')"
    by (auto simp: Let_def milk_row_def)
  from C q have c: "put_todos (calm 9) 1 Map.empty one_todo = (internal_error, one_todo)"
    by simp
  from a b c show ?thesis by blast
qed

text \<open>
  An update of an existing row with a body that carries a title only is answered 500
  and leaves the row as it was: the title is not written.
\<close>

theorem update_missing_property_counterexample:
  "put_todos (calm 9) 1 title_only one_todo = (internal_error, one_todo)
   \<and> status internal_error = 500
   \<and> todos one_todo = [milk_row] \<and> todo_id milk_row = 1
   \<and> title_only ''title'' = Some (JStr (ascii ''Buy milk''))
   \<and> \<not> db_fails (calm 9)"
  by (simp add: put_todos_def title_only_def internal_error_def one_todo_def milk_row_def
                calm_def)

section \<open>The list and its cache\<close>

lemma get_todos_table [simp]: "todos (snd (get_todos e s)) = todos s"
  by (auto simp: get_todos_def cache_setEx_def Let_def split: sum.splits option.splits)


lemma get_todos_coherent:
  assumes "cache_coherent s"
  shows "cache_coherent (snd (get_todos e s))"
  using assms
  by (auto simp: get_todos_def cache_get_def cache_setEx_def cache_coherent_def Let_def
           split: sum.splits option.splits if_splits)


lemma key_deleted_coherent: "key_deleted s \<Longrightarrow> cache_coherent s"
  by (auto simp: key_deleted_def cache_coherent_def split: option.splits)




text \<open>
  Claim C1, evaluated where it fails. The store holds one row and answers; the cache
  client exists and its \<open>get\<close> raises, or its \<open>get\<close> misses
  and its \<open>setEx\<close> raises. Both calls sit in the same \<open>try\<close>
  block as the query, so the answer is 500 although the store would have delivered
  the row.
\<close>

theorem list_fails_on_cache_error:
  "get_todos ((calm 9)\<lparr>get_fails := True\<rparr>) one_todo = (internal_error, one_todo)
   \<and> get_todos ((calm 9)\<lparr>setEx_fails := True\<rparr>) one_todo = (internal_error, one_todo)
   \<and> status internal_error = 500
   \<and> select_todos (todos one_todo) = [milk_row]"
  by (simp add: get_todos_def cache_get_def cache_setEx_def calm_def one_todo_def
                internal_error_def)

text \<open>
  Only an undefined \<open>redisClient\<close> is skipped by the optional chaining: then the
  list comes from the store.
\<close>

lemma list_without_cache_client:
  assumes "redisClient s = None" and "\<not> db_fails e"
  shows "get_todos e s = (\<lparr>status = 200, body = Rows (select_todos (todos s))\<rparr>, s)"
  using assms by (simp add: get_todos_def cache_get_def cache_setEx_def)

subsection \<open>List reads in flight together\<close>












section \<open>Invalidation of the cache by mutations\<close>

lemma key_deleted_map_option [simp]:
  "key_deleted (s\<lparr>redisClient := map_option (\<lambda>k. None) rc\<rparr>)"
  by (cases rc) (simp_all add: key_deleted_def)

lemma key_deleted_todos_update [simp]:
  "key_deleted (s\<lparr>todos := tbl\<rparr>) = key_deleted s"
  by (simp add: key_deleted_def)

lemma key_deleted_next_id_update [simp]:
  "key_deleted (s\<lparr>next_id := n\<rparr>) = key_deleted s"
  by (simp add: key_deleted_def)

lemma post_todos_effect:
  assumes run: "post_todos e b s = (r, s')" and "status r = 200 \<or> status r = 201"
  shows "key_deleted s' \<and> reflects e (POST_todos b) s (select_todos (todos s'))"
proof -
  have "status r \<noteq> 200"
    using post_todos_status [of e b s] run by auto
  with assms(2) have st: "status r = 201" by simp
  from run st obtain t d where h: "b ''title'' = Some (JStr t)" "trim t \<noteq> []"
    "(b ''description'' = None \<and> d = []) \<or> b ''description'' = Some (JStr d)"
    "\<not> db_fails e" "redisClient s = None \<or> \<not> del_fails e"
    by (rule post_todos_201)
  note eq = post_todos_success [where b = b and e = e and s = s, OF h]
  from h(3) have d: "str_of (b ''description'') = d" by auto
  from h(1) have t: "str_of (b ''title'') = t" by simp
  have s': "s' = s\<lparr>todos := todos s @ [created_row e t d s], next_id := Suc (next_id s),
              redisClient := map_option (\<lambda>k. None) (redisClient s)\<rparr>"
    using run unfolding eq by simp
  have kd: "key_deleted s'" unfolding s' by simp
  have "created_row e t d s \<in> set (todos s')" unfolding s' by simp
  with kd t d show ?thesis by simp
qed

lemma put_todos_effect:
  assumes run: "put_todos e i b s = (r, s')" and "status r = 200 \<or> status r = 201"
  shows "key_deleted s' \<and> reflects e (PUT_todos i b) s (select_todos (todos s'))"
proof -
  have "status r \<noteq> 201"
    using put_todos_status [of e i b s] run by auto
  with assms(2) have st: "status r = 200" by simp
  from run st obtain t d c x where h: "b ''title'' = Some t" "b ''description'' = Some d"
    "b ''completed'' = Some c" "\<not> db_fails e"
    "redisClient s = None \<or> \<not> del_fails e" "x \<in> set (todos s)" "todo_id x = i"
    by (rule put_todos_200)
  note eq = put_todos_success [where b = b and e = e and s = s, OF h]
  have s': "s' = s\<lparr>todos := map (\<lambda>x. if todo_id x = i then replaced e t d c x else x) (todos s),
              redisClient := map_option (\<lambda>k. None) (redisClient s)\<rparr>"
    using run unfolding eq by simp
  have "(\<lambda>y. if todo_id y = i then replaced e t d c y else y) x \<in> set (todos s')"
    unfolding s' using h(6) by simp
  then have "replaced e t d c x \<in> set (todos s')"
    using h(7) by simp
  moreover have "todo_id (replaced e t d c x) = i"
    using h(7) by (simp add: replaced_def)
  ultimately have ex: "\<exists>r\<in>set (todos s'). todo_id r = i" by blast
  have "\<forall>r\<in>set (todos s'). todo_id r = i \<longrightarrow>
            title r = t \<and> description r = d \<and> completed r = c \<and> updated_at r = db_time e"
  proof
    fix r assume "r \<in> set (todos s')"
    then obtain y where y: "y \<in> set (todos s)"
      "r = (if todo_id y = i then replaced e t d c y else y)"
      unfolding s' by auto
    show "todo_id r = i \<longrightarrow>
            title r = t \<and> description r = d \<and> completed r = c \<and> updated_at r = db_time e"
    proof (cases "todo_id y = i")
      case True
      with y(2) show ?thesis by (simp add: replaced_def)
    next
      case False
      with y(2) show ?thesis by simp
    qed
  qed
  then have al: "\<forall>r\<in>set (todos s'). todo_id r = i \<longrightarrow>
            Some (title r) = b ''title'' \<and> Some (description r) = b ''description''
            \<and> Some (completed r) = b ''completed'' \<and> updated_at r = db_time e"
    by (simp add: h(1,2,3))
  have kd: "key_deleted s'" unfolding s' by simp
  have rf: "reflects e (PUT_todos i b) s (select_todos (todos s'))"
    unfolding reflects.simps set_select_todos using ex al by (rule conjI)
  from kd rf show ?thesis by (rule conjI)
qed

lemma delete_todos_effect:
  assumes run: "delete_todos e i s = (r, s')" and "status r = 200 \<or> status r = 201"
  shows "key_deleted s' \<and> reflects e (DELETE_todos i) s (select_todos (todos s'))"
proof -
  have "status r \<noteq> 201"
    using delete_todos_status [of e i s] run by auto
  with assms(2) have st: "status r = 200" by simp
  from run st obtain x where h: "\<not> db_fails e" "redisClient s = None \<or> \<not> del_fails e"
    "x \<in> set (todos s)" "todo_id x = i"
    by (rule delete_todos_200)
  note eq = delete_todos_success [OF h]
  have s': "s' = s\<lparr>todos := filter (\<lambda>r. todo_id r \<noteq> i) (todos s),
              redisClient := map_option (\<lambda>k. None) (redisClient s)\<rparr>"
    using run unfolding eq by simp
  have kd: "key_deleted s'" unfolding s' by simp
  have "\<forall>r\<in>set (todos s'). todo_id r \<noteq> i" unfolding s' by simp
  with kd show ?thesis by simp
qed










text \<open>
  Claim C3, evaluated where it fails. When \<open>del\<close> raises, each of the three
  mutating handlers answers 500, after the store has already executed the
  statement: the row is inserted, replaced or removed all the same.
\<close>

theorem mutation_fails_on_cache_error:
  "post_todos ((calm 20)\<lparr>del_fails := True\<rparr>) buy_milk fresh_state
     = (internal_error, fresh_state\<lparr>todos := [milk_row20], next_id := 2\<rparr>)
   \<and> put_todos ((calm 9)\<lparr>del_fails := True\<rparr>) 1 blank_update one_todo
     = (internal_error,
        one_todo\<lparr>todos := [milk_row\<lparr>title := JStr (ascii ''  ''),
                                     description := JStr (ascii '' 2% ''),
                                     completed := JBool True, updated_at := 9\<rparr>]\<rparr>)
   \<and> delete_todos ((calm 9)\<lparr>del_fails := True\<rparr>) 1 one_todo
     = (internal_error, one_todo\<lparr>todos := []\<rparr>)
   \<and> status internal_error = 500"
proof -
  have 1: "post_todos ((calm 20)\<lparr>del_fails := True\<rparr>) buy_milk fresh_state
     = (internal_error, fresh_state\<lparr>todos := [milk_row20], next_id := 2\<rparr>)"
    by (simp add: post_todos_def buy_milk_def trim_buy_milk ascii_buy_milk_neq ascii_padded_neq insert_todo_def
                  cache_del_def calm_def fresh_state_def milk_row20_def)
  have 2: "put_todos ((calm 9)\<lparr>del_fails := True\<rparr>) 1 blank_update one_todo
     = (internal_error,
        one_todo\<lparr>todos := [milk_row\<lparr>title := JStr (ascii ''  ''),
                                     description := JStr (ascii '' 2% ''),
                                     completed := JBool True, updated_at := 9\<rparr>]\<rparr>)"
    by (simp add: put_todos_def blank_update_def update_todo_def cache_del_def calm_def
                  one_todo_def milk_row_def)
  have 3: "delete_todos ((calm 9)\<lparr>del_fails := True\<rparr>) 1 one_todo
     = (internal_error, one_todo\<lparr>todos := []\<rparr>)"
    by (simp add: delete_todos_def delete_todo_def cache_del_def calm_def
                  one_todo_def milk_row_def)
  show ?thesis using 1 2 3 by (simp add: internal_error_def)
qed

section \<open>Requests served one at a time keep the cache coherent\<close>

text \<open>
  Served without interruption and with no cache invalidation raising, every request
  leaves a coherent cache coherent.
\<close>

lemma cache_coherent_deleted [simp]:
  "cache_coherent (s\<lparr>redisClient := map_option (\<lambda>k. None) rc\<rparr>)"
  by (cases rc) (simp_all add: cache_coherent_def)

lemma post_todos_coherent:
  assumes "cache_coherent s" and "redisClient s = None \<or> \<not> del_fails e"
  shows "cache_coherent (snd (post_todos e b s))"
proof (cases "status (fst (post_todos e b s)) = 201")
  case True
  have "post_todos e b s = (fst (post_todos e b s), snd (post_todos e b s))" by simp
  from post_todos_effect [OF this] True show ?thesis by (simp add: key_deleted_coherent)
next
  case False
  have "snd (post_todos e b s) = s \<or> status (fst (post_todos e b s)) = 201"
    using assms(2)
    by (auto simp: post_todos_def insert_todo_def cache_del_def Let_def
             split: option.split sum.split)
  with False assms(1) show ?thesis by simp
qed

lemma put_todos_coherent:
  assumes "cache_coherent s" and "redisClient s = None \<or> \<not> del_fails e"
  shows "cache_coherent (snd (put_todos e i b s))"
proof (cases "status (fst (put_todos e i b s)) = 200")
  case True
  have "put_todos e i b s = (fst (put_todos e i b s), snd (put_todos e i b s))" by simp
  from put_todos_effect [OF this] True show ?thesis by (simp add: key_deleted_coherent)
next
  case False
  have "snd (put_todos e i b s) = s \<or> status (fst (put_todos e i b s)) = 200"
    using assms(2)
    by (auto simp: put_todos_def cache_del_def Let_def message_def
             split: option.split prod.split dest: update_todo_unaffected)
  with False assms(1) show ?thesis by auto
qed

lemma delete_todos_coherent:
  assumes "cache_coherent s" and "redisClient s = None \<or> \<not> del_fails e"
  shows "cache_coherent (snd (delete_todos e i s))"
proof (cases "status (fst (delete_todos e i s)) = 200")
  case True
  have "delete_todos e i s = (fst (delete_todos e i s), snd (delete_todos e i s))" by simp
  from delete_todos_effect [OF this] True show ?thesis by (simp add: key_deleted_coherent)
next
  case False
  have "snd (delete_todos e i s) = s \<or> status (fst (delete_todos e i s)) = 200"
    using assms(2)
    by (auto simp: delete_todos_def cache_del_def Let_def message_def
             split: option.split prod.split dest: delete_todo_unaffected)
  with False assms(1) show ?thesis by auto
qed

lemma handle_coherent:
  assumes "cache_coherent s" and "redisClient s = None \<or> \<not> del_fails e"
  shows "cache_coherent (snd (handle e rq s))"
  using assms
  by (cases rq)
     (simp_all add: get_todos_coherent post_todos_coherent put_todos_coherent
                    delete_todos_coherent)

end
